theory Spec2Isabelle
  imports Main
begin

section \<open>Data model\<close>

text \<open>
  The class \<^verbatim>\<open>TaskList\<close> of \<^verbatim>\<open>src/features/tasks/class/TaskList.ts\<close> keeps an array of
  references to Task objects.  The array returned by \<^verbatim>\<open>getAll\<close> is a fresh array holding
  the same references, and \<^verbatim>\<open>updateTaskStatus\<close> assigns to a field of a shared Task
  object, so arrays and Task objects both live in an explicit store and are named by
  their addresses.

  A Task has an \<^verbatim>\<open>id\<close>, a \<^verbatim>\<open>status\<close> and further fields that TaskList never reads
  (\<open>payload\<close>).  At run time a \<^verbatim>\<open>TaskStatus\<close> is a string.
\<close>

type_synonym ref = nat

record 'p Task =
  id' :: string
  status :: string
  payload :: 'p

text \<open>
  The store: \<open>objs h ! r\<close> is the Task object at address \<open>r\<close>, \<open>arrs h ! a\<close> the
  array of Task references at address \<open>a\<close>.  A new array gets the next free address.
\<close>

record 'p heap =
  objs :: "'p Task list"
  arrs :: "ref list list"

record TaskList =
  tasks :: ref

text \<open>
  The only way the methods can raise: reading a property through a reference that holds
  no object (\<^verbatim>\<open>undefined.id\<close>), or calling an array method on something that is no
  array.  Both are a \<^verbatim>\<open>TypeError\<close> in JavaScript.
\<close>

datatype error = TypeError

text \<open>The column titles of \<^verbatim>\<open>KanbanBoard\<close>: the members of \<^verbatim>\<open>TaskStatus\<close>.\<close>

definition COLUMN_TITLES :: "string list" where
  "COLUMN_TITLES = [''To Do'', ''In Progress'', ''Done'']"

section \<open>Store access\<close>

definition get_obj :: "'p heap \<Rightarrow> ref \<Rightarrow> error + 'p Task" where
  "get_obj h r = (if r < length (objs h) then Inr (objs h ! r) else Inl TypeError)"

definition get_arr :: "'p heap \<Rightarrow> ref \<Rightarrow> error + ref list" where
  "get_arr h a = (if a < length (arrs h) then Inr (arrs h ! a) else Inl TypeError)"

definition new_arr :: "'p heap \<Rightarrow> ref list \<Rightarrow> ref \<times> 'p heap" where
  "new_arr h xs = (length (arrs h), h\<lparr>arrs := arrs h @ [xs]\<rparr>)"

text \<open>
  \<^verbatim>\<open>Array.prototype.filter\<close> and \<^verbatim>\<open>Array.prototype.find\<close> with a callback that reads
  a property of the element.  Both visit the elements from the left; \<^verbatim>\<open>find\<close> stops at
  the first element the callback accepts.
\<close>

fun array_filter :: "'p heap \<Rightarrow> ('p Task \<Rightarrow> bool) \<Rightarrow> ref list \<Rightarrow> error + ref list" where
  "array_filter h p [] = Inr []"
| "array_filter h p (r # rs) =
     (case get_obj h r of
        Inl e \<Rightarrow> Inl e
      | Inr task \<Rightarrow>
          (case array_filter h p rs of
             Inl e \<Rightarrow> Inl e
           | Inr ys \<Rightarrow> Inr (if p task then r # ys else ys)))"

fun array_find :: "'p heap \<Rightarrow> ('p Task \<Rightarrow> bool) \<Rightarrow> ref list \<Rightarrow> error + ref option" where
  "array_find h p [] = Inr None"
| "array_find h p (r # rs) =
     (case get_obj h r of
        Inl e \<Rightarrow> Inl e
      | Inr task \<Rightarrow> if p task then Inr (Some r) else array_find h p rs)"

section \<open>The drag payload helpers\<close>

text \<open>
  Modelled from the spec: the helpers \<^verbatim>\<open>setDraggedTaskId\<close> and \<^verbatim>\<open>getDraggedTaskId\<close> of
  \<^verbatim>\<open>features/tasks/utils\<close> are not among the sources.  The specification describes the
  transfer payload as a single-value channel, a string kept under one well-known key:
  the first helper writes the task identifier into it, the second reads it back and
  yields no value when nothing was written.  A \<^verbatim>\<open>DataTransfer\<close> is therefore the value
  held under that key, if any; the parameter type \<^verbatim>\<open>DataTransfer | null\<close> adds \<open>None\<close>,
  into which nothing can be written and from which nothing is read.
\<close>

type_synonym DataTransfer = "string option"

definition setDraggedTaskId :: "DataTransfer option \<Rightarrow> string \<Rightarrow> DataTransfer option" where
  "setDraggedTaskId dataTransfer taskId =
     (case dataTransfer of None \<Rightarrow> None | Some _ \<Rightarrow> Some (Some taskId))"

definition getDraggedTaskId :: "DataTransfer option \<Rightarrow> string option" where
  "getDraggedTaskId dataTransfer =
     (case dataTransfer of None \<Rightarrow> None | Some v \<Rightarrow> v)"

section \<open>The class TaskList\<close>

text \<open>
  \<^verbatim>\<open>constructor(initialTasks: Task[] = [])\<close>: \<open>None\<close> is the omitted argument, for which
  a new empty array is made first.  The field \<^verbatim>\<open>tasks\<close> receives a copy.
\<close>

definition new_TaskList :: "'p heap \<Rightarrow> ref option \<Rightarrow> error + (TaskList \<times> 'p heap)" where
  "new_TaskList h initialTasks =
     (case (case initialTasks of None \<Rightarrow> new_arr h [] | Some a \<Rightarrow> (a, h)) of
        (a0, h0) \<Rightarrow>
          (case get_arr h0 a0 of
             Inl e \<Rightarrow> Inl e
           | Inr xs \<Rightarrow> (case new_arr h0 xs of (a, h1) \<Rightarrow> Inr (\<lparr>tasks = a\<rparr>, h1))))"

definition getAll :: "TaskList \<Rightarrow> 'p heap \<Rightarrow> error + (ref \<times> 'p heap)" where
  "getAll this h =
     (case get_arr h (tasks this) of
        Inl e \<Rightarrow> Inl e
      | Inr xs \<Rightarrow> Inr (new_arr h xs))"

definition getByStatus :: "TaskList \<Rightarrow> 'p heap \<Rightarrow> string \<Rightarrow> error + (ref \<times> 'p heap)" where
  "getByStatus this h status' =
     (case get_arr h (tasks this) of
        Inl e \<Rightarrow> Inl e
      | Inr xs \<Rightarrow>
          (case array_filter h (\<lambda>task. status task = status') xs of
             Inl e \<Rightarrow> Inl e
           | Inr ys \<Rightarrow> Inr (new_arr h ys)))"

definition add :: "TaskList \<Rightarrow> 'p heap \<Rightarrow> ref \<Rightarrow> error + 'p heap" where
  "add this h newTask =
     (case get_arr h (tasks this) of
        Inl e \<Rightarrow> Inl e
      | Inr xs \<Rightarrow> Inr (h\<lparr>arrs := (arrs h)[tasks this := xs @ [newTask]]\<rparr>))"

definition updateTaskStatus ::
  "TaskList \<Rightarrow> 'p heap \<Rightarrow> string \<Rightarrow> string \<Rightarrow> error + (bool \<times> 'p heap)" where
  "updateTaskStatus this h taskId targetStatus =
     (case get_arr h (tasks this) of
        Inl e \<Rightarrow> Inl e
      | Inr xs \<Rightarrow>
          (case array_find h (\<lambda>task. id' task = taskId) xs of
             Inl e \<Rightarrow> Inl e
           | Inr None \<Rightarrow> Inr (False, h)
           | Inr (Some targetTask) \<Rightarrow>
               (case get_obj h targetTask of
                  Inl e \<Rightarrow> Inl e
                | Inr task \<Rightarrow>
                    if status task = targetStatus then Inr (False, h)
                    else Inr (True,
                      h\<lparr>objs := (objs h)[targetTask := task\<lparr>status := targetStatus\<rparr>]\<rparr>))))"

definition onDrag :: "TaskList \<Rightarrow> string \<Rightarrow> DataTransfer option \<Rightarrow> DataTransfer option" where
  "onDrag this taskId dataTransfer = setDraggedTaskId dataTransfer taskId"

text \<open>\<^verbatim>\<open>!taskId\<close> holds for \<^verbatim>\<open>null\<close>, \<^verbatim>\<open>undefined\<close> and the empty string.\<close>

definition onDrop ::
  "TaskList \<Rightarrow> 'p heap \<Rightarrow> DataTransfer option \<Rightarrow> string \<Rightarrow> error + (bool \<times> 'p heap)" where
  "onDrop this h dataTransfer targetStatus =
     (case getDraggedTaskId dataTransfer of
        None \<Rightarrow> Inr (False, h)
      | Some taskId \<Rightarrow>
          if taskId = [] then Inr (False, h)
          else updateTaskStatus this h taskId targetStatus)"

section \<open>What a caller observes\<close>

text \<open>
  The contents of the array a call returned, read in the store the call left behind.
\<close>

definition returned :: "error + (ref \<times> 'p heap) \<Rightarrow> error + ref list" where
  "returned res = (case res of Inl e \<Rightarrow> Inl e | Inr (a, h') \<Rightarrow> get_arr h' a)"

definition appears_in :: "ref \<Rightarrow> error + ref list \<Rightarrow> bool" where
  "appears_in r res = (case res of Inl e \<Rightarrow> False | Inr ys \<Rightarrow> r \<in> set ys)"

text \<open>A caller adding tasks one after the other; the first error ends the run.\<close>

fun add_all :: "TaskList \<Rightarrow> 'p heap \<Rightarrow> ref list \<Rightarrow> error + 'p heap" where
  "add_all this h [] = Inr h"
| "add_all this h (newTask # rest) =
     (case add this h newTask of Inl e \<Rightarrow> Inl e | Inr h' \<Rightarrow> add_all this h' rest)"

text \<open>
  A caller mutating an array it holds (\<^verbatim>\<open>push\<close>, \<^verbatim>\<open>pop\<close>, \<^verbatim>\<open>splice\<close>, \<^verbatim>\<open>sort\<close>, an
  assignment to an index or to \<^verbatim>\<open>length\<close>) replaces the contents at that address.
\<close>

definition mutate_array :: "'p heap \<Rightarrow> ref \<Rightarrow> ref list \<Rightarrow> 'p heap" where
  "mutate_array h a ys = h\<lparr>arrs := (arrs h)[a := ys]\<rparr>"

text \<open>
  The typing \<^verbatim>\<open>tasks: Task[]\<close>: the field holds an array, and every element of it is a
  Task object.
\<close>

definition well_typed :: "TaskList \<Rightarrow> 'p heap \<Rightarrow> bool" where
  "well_typed this h \<longleftrightarrow>
     tasks this < length (arrs h) \<and> (\<forall>r \<in> set (arrs h ! tasks this). r < length (objs h))"

text \<open>A board of three tasks, used to run the operations on concrete data.\<close>

definition board_objs :: "unit Task list" where
  "board_objs =
     [\<lparr>id' = ''t1'', status = ''To Do'', payload = ()\<rparr>,
      \<lparr>id' = ''t2'', status = ''To Do'', payload = ()\<rparr>,
      \<lparr>id' = ''t3'', status = ''Done'', payload = ()\<rparr>]"

definition board :: "unit heap" where
  "board = \<lparr>objs = board_objs, arrs = [[0, 1, 2]]\<rparr>"

definition board_list :: TaskList where
  "board_list = \<lparr>tasks = 0\<rparr>"

text \<open>
  A board whose only task has the empty string as identifier, three tasks of one status
  that are in no list yet, and a board on which two tasks share the identifier \<^verbatim>\<open>t1\<close>.
\<close>

definition blank_board :: "unit heap" where
  "blank_board = \<lparr>objs = [\<lparr>id' = [], status = ''To Do'', payload = ()\<rparr>], arrs = [[0]]\<rparr>"

definition trio :: "unit heap" where
  "trio =
     \<lparr>objs = [\<lparr>id' = ''A'', status = ''To Do'', payload = ()\<rparr>,
              \<lparr>id' = ''B'', status = ''To Do'', payload = ()\<rparr>,
              \<lparr>id' = ''C'', status = ''To Do'', payload = ()\<rparr>],
      arrs = []\<rparr>"

definition twin_board :: "unit heap" where
  "twin_board =
     \<lparr>objs = [\<lparr>id' = ''t0'', status = ''Done'', payload = ()\<rparr>,
              \<lparr>id' = ''t1'', status = ''To Do'', payload = ()\<rparr>,
              \<lparr>id' = ''t1'', status = ''In Progress'', payload = ()\<rparr>],
      arrs = [[0, 1, 2]]\<rparr>"

section \<open>Properties of the array methods\<close>

lemma array_filter_typed:
  "\<forall>r \<in> set xs. r < length (objs h) \<Longrightarrow>
   array_filter h p xs = Inr (filter (\<lambda>r. p (objs h ! r)) xs)"
  by (induction xs) (simp_all add: get_obj_def)

lemma array_find_typed:
  "\<forall>r \<in> set xs. r < length (objs h) \<Longrightarrow>
   array_find h p xs = Inr (List.find (\<lambda>r. p (objs h ! r)) xs)"
  by (induction xs) (simp_all add: get_obj_def)

lemma array_find_first:
  "\<forall>q \<in> set pre. q < length (objs h) \<and> \<not> p (objs h ! q) \<Longrightarrow>
   r < length (objs h) \<Longrightarrow> p (objs h ! r) \<Longrightarrow>
   array_find h p (pre @ r # post) = Inr (Some r)"
  by (induction pre) (simp_all add: get_obj_def)

lemma find_Some_typed:
  "List.find q xs = Some r \<Longrightarrow> r \<in> set xs \<and> q r"
  by (induction xs) (auto split: if_splits)

lemma well_typed_board: "well_typed board_list board"
  by (simp add: well_typed_def board_def board_list_def board_objs_def)

section \<open>Updating the status of a task\<close>

lemma updateTaskStatus_absent:
  assumes "well_typed this h"
    and "\<forall>r \<in> set (arrs h ! tasks this). id' (objs h ! r) \<noteq> taskId"
  shows "updateTaskStatus this h taskId s = Inr (False, h)"
proof -
  have "List.find (\<lambda>r. id' (objs h ! r) = taskId) (arrs h ! tasks this) = None"
    using assms(2) by (simp add: find_None_iff)
  then show ?thesis
    using assms(1) by (simp add: updateTaskStatus_def get_arr_def well_typed_def array_find_typed)
qed

lemma updateTaskStatus_first:
  assumes "tasks this < length (arrs h)"
    and "arrs h ! tasks this = pre @ r # post"
    and "\<forall>q \<in> set pre. q < length (objs h) \<and> id' (objs h ! q) \<noteq> taskId"
    and "r < length (objs h)" and "id' (objs h ! r) = taskId"
  shows "updateTaskStatus this h taskId s =
     (if status (objs h ! r) = s then Inr (False, h)
      else Inr (True, h\<lparr>objs := (objs h)[r := (objs h ! r)\<lparr>status := s\<rparr>]\<rparr>))"
proof -
  have "array_find h (\<lambda>task. id' task = taskId) (pre @ r # post) = Inr (Some r)"
    using assms(3,4,5) by (intro array_find_first) simp_all
  then show ?thesis
    using assms(1,2,4) by (simp add: updateTaskStatus_def get_arr_def get_obj_def)
qed

text \<open>
  Claim C1.  \<^verbatim>\<open>updateTaskStatus(taskId, targetStatus)\<close> returns \<^verbatim>\<open>false\<close> and leaves the
  store as it is when no task of the list has the identifier; it returns \<^verbatim>\<open>false\<close> and
  leaves the store as it is when the first task with the identifier already has the
  target status; otherwise it returns \<^verbatim>\<open>true\<close> and the only change is the status field
  of that first task, assigned in place.
\<close>

theorem updateTaskStatus_cases:
  assumes "well_typed this h"
  shows "((\<forall>r \<in> set (arrs h ! tasks this). id' (objs h ! r) \<noteq> taskId) \<longrightarrow>
            updateTaskStatus this h taskId s = Inr (False, h)) \<and>
         (\<forall>pre r post.
            arrs h ! tasks this = pre @ r # post \<and>
            (\<forall>q \<in> set pre. id' (objs h ! q) \<noteq> taskId) \<and> id' (objs h ! r) = taskId \<longrightarrow>
            (status (objs h ! r) = s \<longrightarrow> updateTaskStatus this h taskId s = Inr (False, h)) \<and>
            (status (objs h ! r) \<noteq> s \<longrightarrow>
               updateTaskStatus this h taskId s =
                 Inr (True, h\<lparr>objs := (objs h)[r := (objs h ! r)\<lparr>status := s\<rparr>]\<rparr>)))"
proof (intro conjI allI impI)
  assume "\<forall>r \<in> set (arrs h ! tasks this). id' (objs h ! r) \<noteq> taskId"
  with assms show "updateTaskStatus this h taskId s = Inr (False, h)"
    by (rule updateTaskStatus_absent)
next
  fix pre r post
  assume a: "arrs h ! tasks this = pre @ r # post \<and>
    (\<forall>q \<in> set pre. id' (objs h ! q) \<noteq> taskId) \<and> id' (objs h ! r) = taskId"
  have t: "tasks this < length (arrs h)" and b: "\<forall>q \<in> set (pre @ r # post). q < length (objs h)"
    using assms a by (simp_all add: well_typed_def)
  have u: "updateTaskStatus this h taskId s =
     (if status (objs h ! r) = s then Inr (False, h)
      else Inr (True, h\<lparr>objs := (objs h)[r := (objs h ! r)\<lparr>status := s\<rparr>]\<rparr>))"
    using t a b by (intro updateTaskStatus_first[where pre=pre and post=post]) simp_all
  { assume "status (objs h ! r) = s"
    with u show "updateTaskStatus this h taskId s = Inr (False, h)" by simp }
  { assume "status (objs h ! r) \<noteq> s"
    with u show "updateTaskStatus this h taskId s =
                 Inr (True, h\<lparr>objs := (objs h)[r := (objs h ! r)\<lparr>status := s\<rparr>]\<rparr>)" by simp }
qed

theorem updateTaskStatus_cases_witness:
  "well_typed board_list board \<and>
   updateTaskStatus board_list board ''t9'' ''Done'' = Inr (False, board) \<and>
   updateTaskStatus board_list board ''t2'' ''To Do'' = Inr (False, board) \<and>
   updateTaskStatus board_list board ''t2'' ''Done'' =
     Inr (True, board\<lparr>objs := (objs board)[1 := (objs board ! 1)\<lparr>status := ''Done''\<rparr>]\<rparr>)"
proof -
  have w: "well_typed board_list board"
    by (rule well_typed_board)
  have a: "arrs board ! tasks board_list = [0] @ 1 # [2]"
    by (simp add: board_def board_list_def)
  have "updateTaskStatus board_list board ''t9'' ''Done'' = Inr (False, board)"
    using updateTaskStatus_cases [OF w, of "''t9''" "''Done''"]
    by (simp add: board_def board_list_def board_objs_def)
  moreover have "updateTaskStatus board_list board ''t2'' ''To Do'' = Inr (False, board)"
    using a updateTaskStatus_cases [OF w, THEN conjunct2, rule_format, of "[0]" 1 "[2]" "''t2''" "''To Do''"]
    by (simp add: board_def board_list_def board_objs_def)
  moreover have "updateTaskStatus board_list board ''t2'' ''Done'' =
     Inr (True, board\<lparr>objs := (objs board)[1 := (objs board ! 1)\<lparr>status := ''Done''\<rparr>]\<rparr>)"
    using a updateTaskStatus_cases [OF w, THEN conjunct2, rule_format, of "[0]" 1 "[2]" "''t2''" "''Done''"]
    by (simp add: board_def board_list_def board_objs_def)
  ultimately show ?thesis
    using w by simp
qed

section \<open>Reading the list\<close>

lemma getAll_typed:
  "tasks this < length (arrs h) \<Longrightarrow>
   getAll this h = Inr (length (arrs h), h\<lparr>arrs := arrs h @ [arrs h ! tasks this]\<rparr>)"
  by (simp add: getAll_def get_arr_def new_arr_def)

lemma getByStatus_typed:
  "well_typed this h \<Longrightarrow>
   getByStatus this h s =
     Inr (length (arrs h),
          h\<lparr>arrs := arrs h @ [filter (\<lambda>r. status (objs h ! r) = s) (arrs h ! tasks this)]\<rparr>)"
  by (simp add: getByStatus_def get_arr_def new_arr_def well_typed_def array_filter_typed)

lemma returned_getAll:
  "tasks this < length (arrs h) \<Longrightarrow> returned (getAll this h) = Inr (arrs h ! tasks this)"
  by (simp add: getAll_typed returned_def get_arr_def)

lemma returned_getByStatus:
  "well_typed this h \<Longrightarrow>
   returned (getByStatus this h s) =
     Inr (filter (\<lambda>r. status (objs h ! r) = s) (arrs h ! tasks this))"
  by (simp add: getByStatus_typed returned_def get_arr_def)

lemma well_typed_cong:
  "well_typed this h \<Longrightarrow> tasks this < length (arrs h') \<Longrightarrow>
   arrs h' ! tasks this = arrs h ! tasks this \<Longrightarrow> length (objs h') = length (objs h) \<Longrightarrow>
   well_typed this h'"
  by (simp add: well_typed_def)

lemma mutate_other_array:
  "a \<noteq> tasks this \<Longrightarrow> tasks this < length (arrs h) \<Longrightarrow>
   arrs (mutate_array h a ys) ! tasks this = arrs h ! tasks this \<and>
   length (arrs (mutate_array h a ys)) = length (arrs h) \<and>
   objs (mutate_array h a ys) = objs h"
  by (simp add: mutate_array_def)

text \<open>
  Claim C2.  The array returned by \<^verbatim>\<open>getAll\<close> or \<^verbatim>\<open>getByStatus\<close> is not the array the
  list keeps: whatever a caller then writes into the returned array, the list's own
  array and the Task objects stay as they were, and later calls of \<^verbatim>\<open>getAll\<close> and
  \<^verbatim>\<open>getByStatus\<close> return what they would have returned had the array not been touched.
\<close>

theorem snapshot_isolation:
  assumes wt: "well_typed this h"
    and call: "getAll this h = Inr (a, h1) \<or> getByStatus this h s0 = Inr (a, h1)"
  shows "a \<noteq> tasks this \<and>
         well_typed this (mutate_array h1 a ys) \<and>
         objs (mutate_array h1 a ys) = objs h \<and>
         arrs (mutate_array h1 a ys) ! tasks this = arrs h ! tasks this \<and>
         returned (getAll this (mutate_array h1 a ys)) = returned (getAll this h1) \<and>
         returned (getAll this h1) = returned (getAll this h) \<and>
         returned (getAll this h) = Inr (arrs h ! tasks this) \<and>
         (\<forall>s. returned (getByStatus this (mutate_array h1 a ys) s) =
                returned (getByStatus this h1 s) \<and>
              returned (getByStatus this h1 s) = returned (getByStatus this h s) \<and>
              returned (getByStatus this h s) =
                Inr (filter (\<lambda>r. status (objs h ! r) = s) (arrs h ! tasks this)))"
proof -
  have t: "tasks this < length (arrs h)"
    using wt by (simp add: well_typed_def)
  from call obtain zs where a: "a = length (arrs h)" and h1: "h1 = h\<lparr>arrs := arrs h @ [zs]\<rparr>"
    using wt t by (auto simp: getAll_typed getByStatus_typed)
  have ne: "a \<noteq> tasks this"
    using a t by simp
  have k1: "tasks this < length (arrs h1)" "arrs h1 ! tasks this = arrs h ! tasks this"
    "objs h1 = objs h"
    using t h1 by (simp_all add: nth_append)
  have w1: "well_typed this h1"
    using wt k1 by (intro well_typed_cong[OF wt]) simp_all
  have k2: "arrs (mutate_array h1 a ys) ! tasks this = arrs h ! tasks this"
    "length (arrs (mutate_array h1 a ys)) = length (arrs h1)"
    "objs (mutate_array h1 a ys) = objs h"
    using mutate_other_array[OF ne k1(1), of ys] k1 by simp_all
  have w2: "well_typed this (mutate_array h1 a ys)"
    using k1 k2 by (intro well_typed_cong[OF wt]) simp_all
  have t2: "tasks this < length (arrs (mutate_array h1 a ys))"
    using k1 k2 by simp
  show ?thesis
    using ne w2 k2 k1
    by (simp add: returned_getAll[OF t] returned_getAll[OF k1(1)] returned_getAll[OF t2]
        returned_getByStatus[OF wt] returned_getByStatus[OF w1] returned_getByStatus[OF w2])
qed

theorem snapshot_isolation_witness:
  "well_typed board_list board \<and>
   getAll board_list board = Inr (1, board\<lparr>arrs := [[0, 1, 2], [0, 1, 2]]\<rparr>) \<and>
   returned (getAll board_list (mutate_array (board\<lparr>arrs := [[0, 1, 2], [0, 1, 2]]\<rparr>) 1 [])) =
     Inr [0, 1, 2] \<and>
   returned (getByStatus board_list
       (mutate_array (board\<lparr>arrs := [[0, 1, 2], [0, 1, 2]]\<rparr>) 1 []) ''To Do'') =
     Inr [0, 1]"
proof -
  have w: "well_typed board_list board"
    by (rule well_typed_board)
  have c: "getAll board_list board = Inr (1, board\<lparr>arrs := [[0, 1, 2], [0, 1, 2]]\<rparr>)"
    by (simp add: getAll_def get_arr_def new_arr_def board_def board_list_def)
  show ?thesis
    using w c snapshot_isolation [OF w disjI1 [OF c], of "[]"]
    by (simp add: board_def board_list_def board_objs_def)
qed

text \<open>
  The elements of a returned array are the list's own Task objects: an assignment to a
  field through one of them is seen by the next call.
\<close>

lemma returned_elements_shared:
  "returned (getAll board_list board) = Inr [0, 1, 2] \<and>
   returned (getByStatus board_list board ''Done'') = Inr [2] \<and>
   returned (getByStatus board_list
      (board\<lparr>objs := (objs board)[0 := (objs board ! 0)\<lparr>status := ''Done''\<rparr>]\<rparr>) ''Done'') =
     Inr [0, 2]"
  by (simp add: returned_def getAll_def getByStatus_def get_arr_def get_obj_def new_arr_def
      board_def board_list_def board_objs_def)

section \<open>Dragging and dropping\<close>

lemma well_typed_update:
  "well_typed this h \<Longrightarrow> well_typed this (h\<lparr>objs := (objs h)[r := task]\<rparr>)"
  by (simp add: well_typed_def)

lemma updateTaskStatus_moved:
  assumes wt: "well_typed this h"
    and split: "arrs h ! tasks this = pre @ r # post"
    and first: "\<forall>q \<in> set pre. id' (objs h ! q) \<noteq> taskId" "id' (objs h ! r) = taskId"
    and other: "status (objs h ! r) \<noteq> s"
  shows "updateTaskStatus this h taskId s =
           Inr (True, h\<lparr>objs := (objs h)[r := (objs h ! r)\<lparr>status := s\<rparr>]\<rparr>)"
    and "r < length (objs h)"
proof -
  have t: "tasks this < length (arrs h)"
    and b: "\<forall>q \<in> set (pre @ r # post). q < length (objs h)"
    using wt split by (simp_all add: well_typed_def)
  show "r < length (objs h)"
    using b by simp
  have "updateTaskStatus this h taskId s =
     (if status (objs h ! r) = s then Inr (False, h)
      else Inr (True, h\<lparr>objs := (objs h)[r := (objs h ! r)\<lparr>status := s\<rparr>]\<rparr>))"
    using t split first b by (intro updateTaskStatus_first[where pre=pre and post=post]) simp_all
  then show "updateTaskStatus this h taskId s =
           Inr (True, h\<lparr>objs := (objs h)[r := (objs h ! r)\<lparr>status := s\<rparr>]\<rparr>)"
    using other by simp
qed

lemma onDrop_stored:
  "getDraggedTaskId dataTransfer = Some taskId \<Longrightarrow> taskId \<noteq> [] \<Longrightarrow>
   onDrop this h dataTransfer s = updateTaskStatus this h taskId s"
  by (simp add: onDrop_def)

lemma getDraggedTaskId_onDrag:
  "getDraggedTaskId (onDrag this taskId (Some c)) = Some taskId"
  by (simp add: getDraggedTaskId_def onDrag_def setDraggedTaskId_def)

text \<open>
  Claim C3, as stated: whenever the list holds a task with identifier \<open>i\<close> and a status
  other than \<open>S\<close>, \<^verbatim>\<open>onDrag(i, channel)\<close> followed by \<^verbatim>\<open>onDrop(channel, S)\<close> returns
  \<^verbatim>\<open>true\<close>.  On the board whose task has the empty identifier the drop returns
  \<^verbatim>\<open>false\<close> and changes nothing.
\<close>

theorem drag_drop_round_trip_counterexample:
  "well_typed board_list blank_board \<and>
   arrs blank_board ! tasks board_list = [0] \<and>
   id' (objs blank_board ! 0) = [] \<and>
   status (objs blank_board ! 0) \<noteq> ''Done'' \<and>
   onDrop board_list blank_board (onDrag board_list [] (Some None)) ''Done'' =
     Inr (False, blank_board)"
  by (simp add: well_typed_def blank_board_def board_list_def onDrop_def onDrag_def
      setDraggedTaskId_def getDraggedTaskId_def)

text \<open>
  The same happens without an empty identifier when an earlier task shares the
  identifier and already has the target status: the drop looks at that one only.
\<close>

lemma drag_drop_shadowed:
  "status (objs twin_board ! 2) \<noteq> ''To Do'' \<and> id' (objs twin_board ! 2) = ''t1'' \<and>
   onDrop board_list twin_board (onDrag board_list ''t1'' (Some None)) ''To Do'' =
     Inr (False, twin_board)"
  by (simp add: twin_board_def board_list_def onDrop_def onDrag_def
      setDraggedTaskId_def getDraggedTaskId_def updateTaskStatus_def get_arr_def get_obj_def)

text \<open>
  Claim C3, amended.  When the first task of the list with identifier \<open>i\<close> has a status
  other than \<open>S\<close>, \<open>i\<close> is not the empty string and the channel is not \<^verbatim>\<open>null\<close>, then
  \<^verbatim>\<open>onDrag(i, channel)\<close> followed by \<^verbatim>\<open>onDrop(channel, S)\<close> returns \<^verbatim>\<open>true\<close>, and
  afterwards \<^verbatim>\<open>getByStatus(S)\<close> contains that task.  A drop from a channel that holds a
  non-empty identifier is \<^verbatim>\<open>updateTaskStatus\<close> on that identifier.
\<close>

theorem drag_drop_round_trip:
  assumes wt: "well_typed this h"
    and split: "arrs h ! tasks this = pre @ r # post"
    and first: "\<forall>q \<in> set pre. id' (objs h ! q) \<noteq> i" "id' (objs h ! r) = i"
    and other: "status (objs h ! r) \<noteq> S"
    and nonempty: "i \<noteq> []"
  shows "(\<exists>h'. onDrop this h (onDrag this i (Some c)) S = Inr (True, h') \<and>
               appears_in r (returned (getByStatus this h' S)) \<and>
               id' (objs h' ! r) = i) \<and>
         (\<forall>dataTransfer taskId.
            getDraggedTaskId dataTransfer = Some taskId \<and> taskId \<noteq> [] \<longrightarrow>
            onDrop this h dataTransfer S = updateTaskStatus this h taskId S)"
proof (intro conjI allI impI)
  let ?h' = "h\<lparr>objs := (objs h)[r := (objs h ! r)\<lparr>status := S\<rparr>]\<rparr>"
  have u: "updateTaskStatus this h i S = Inr (True, ?h')" and r: "r < length (objs h)"
    using updateTaskStatus_moved[OF wt split first other] by simp_all
  have d: "onDrop this h (onDrag this i (Some c)) S = Inr (True, ?h')"
    using u nonempty by (simp add: onDrop_stored[OF getDraggedTaskId_onDrag])
  have w': "well_typed this ?h'"
    using wt by (rule well_typed_update)
  have "appears_in r (returned (getByStatus this ?h' S))"
    using r split by (simp add: returned_getByStatus[OF w'] appears_in_def)
  moreover have "id' (objs ?h' ! r) = i"
    using r first by simp
  ultimately show "\<exists>h'. onDrop this h (onDrag this i (Some c)) S = Inr (True, h') \<and>
               appears_in r (returned (getByStatus this h' S)) \<and> id' (objs h' ! r) = i"
    using d by blast
next
  fix dataTransfer taskId
  assume "getDraggedTaskId dataTransfer = Some taskId \<and> taskId \<noteq> []"
  then show "onDrop this h dataTransfer S = updateTaskStatus this h taskId S"
    by (simp add: onDrop_stored)
qed

theorem drag_drop_round_trip_witness:
  "well_typed board_list board \<and>
   arrs board ! tasks board_list = [0] @ 1 # [2] \<and>
   id' (objs board ! 1) = ''t2'' \<and> status (objs board ! 1) \<noteq> ''Done'' \<and>
   (\<exists>h'. onDrop board_list board (onDrag board_list ''t2'' (Some None)) ''Done'' = Inr (True, h') \<and>
         appears_in 1 (returned (getByStatus board_list h' ''Done'')))"
proof -
  have w: "well_typed board_list board"
    by (rule well_typed_board)
  have a: "arrs board ! tasks board_list = [0] @ 1 # [2]"
    by (simp add: board_def board_list_def)
  have b: "\<forall>q \<in> set [0]. id' (objs board ! q) \<noteq> ''t2''" "id' (objs board ! 1) = ''t2''"
    "status (objs board ! 1) \<noteq> ''Done''" "''t2'' \<noteq> []"
    by (simp_all add: board_def board_objs_def)
  show ?thesis
    using w a b drag_drop_round_trip [OF w a b, where c = None]
    by blast
qed

text \<open>
  Claim C4.  A drop from a channel whose read yields no value, as when no drag wrote into
  it, returns \<^verbatim>\<open>false\<close> and leaves the store as it is, for every list and target status.
\<close>

theorem onDrop_without_drag:
  "getDraggedTaskId dataTransfer = None \<Longrightarrow>
   onDrop this h dataTransfer targetStatus = Inr (False, h)"
  by (simp add: onDrop_def)

theorem onDrop_without_drag_witness:
  "getDraggedTaskId (Some None) = None \<and>
   onDrop board_list board (Some None) ''Done'' = Inr (False, board)"
proof -
  have n: "getDraggedTaskId (Some None) = None"
    by (simp add: getDraggedTaskId_def)
  show ?thesis
    using n onDrop_without_drag [OF n, of board_list board "''Done''"] by simp
qed

text \<open>
  Claim C10.  \<^verbatim>\<open>onDrop\<close> treats the empty string as no identifier: when the channel holds
  the empty string, also when \<^verbatim>\<open>onDrag\<close> wrote it there and a task with that identifier
  is in the list, the drop returns \<^verbatim>\<open>false\<close> and leaves the store as it is.
\<close>

theorem onDrop_empty_taskId:
  "(getDraggedTaskId dataTransfer = Some [] \<longrightarrow>
      onDrop this h dataTransfer targetStatus = Inr (False, h)) \<and>
   onDrop this h (onDrag this [] dataTransfer) targetStatus = Inr (False, h)"
  by (simp add: onDrop_def onDrag_def getDraggedTaskId_def setDraggedTaskId_def
      split: option.splits)

theorem onDrop_empty_taskId_witness:
  "getDraggedTaskId (Some (Some [])) = Some [] \<and>
   id' (objs blank_board ! 0) = [] \<and>
   updateTaskStatus board_list blank_board [] ''Done'' \<noteq> Inr (False, blank_board) \<and>
   onDrop board_list blank_board (Some (Some [])) ''Done'' = Inr (False, blank_board) \<and>
   onDrop board_list blank_board (onDrag board_list [] (Some None)) ''Done'' =
     Inr (False, blank_board)"
proof -
  have g: "getDraggedTaskId (Some (Some [])) = Some []"
    by (simp add: getDraggedTaskId_def)
  have u: "updateTaskStatus board_list blank_board [] ''Done'' \<noteq> Inr (False, blank_board)"
    by (simp add: updateTaskStatus_def get_arr_def get_obj_def blank_board_def board_list_def)
  have i: "id' (objs blank_board ! 0) = []"
    by (simp add: blank_board_def)
  show ?thesis
    using g u i
      onDrop_empty_taskId [of "Some (Some [])" board_list blank_board "''Done''"]
      onDrop_empty_taskId [of "Some None" board_list blank_board "''Done''"]
    by simp
qed

section \<open>Moving a task\<close>

text \<open>
  Claim C5.  When exactly one task of the list has identifier \<open>i\<close>, its status is \<open>A\<close>
  and \<open>B\<close> is another status, \<^verbatim>\<open>updateTaskStatus(i, B)\<close> returns \<^verbatim>\<open>true\<close>; afterwards
  \<^verbatim>\<open>getByStatus(B)\<close> holds the task and \<^verbatim>\<open>getByStatus(A)\<close> holds no task with that
  identifier; the task differs from before in its status field only, every other Task
  object is as before, and the list has the same references in the same order.
\<close>

theorem successful_move:
  assumes wt: "well_typed this h"
    and split: "arrs h ! tasks this = pre @ r # post"
    and unique: "\<forall>q \<in> set pre \<union> set post. id' (objs h ! q) \<noteq> i" "id' (objs h ! r) = i"
    and old: "status (objs h ! r) = A"
    and new: "B \<noteq> A"
  shows "\<exists>h'. updateTaskStatus this h i B = Inr (True, h') \<and>
           appears_in r (returned (getByStatus this h' B)) \<and>
           \<not> appears_in r (returned (getByStatus this h' A)) \<and>
           (\<forall>q. appears_in q (returned (getByStatus this h' A)) \<longrightarrow> id' (objs h' ! q) \<noteq> i) \<and>
           objs h' ! r = (objs h ! r)\<lparr>status := B\<rparr> \<and>
           (\<forall>q. q \<noteq> r \<longrightarrow> objs h' ! q = objs h ! q) \<and>
           length (objs h') = length (objs h) \<and>
           arrs h' = arrs h \<and>
           returned (getAll this h') = returned (getAll this h)"
proof -
  let ?h' = "h\<lparr>objs := (objs h)[r := (objs h ! r)\<lparr>status := B\<rparr>]\<rparr>"
  have first: "\<forall>q \<in> set pre. id' (objs h ! q) \<noteq> i"
    using unique(1) by simp
  have other: "status (objs h ! r) \<noteq> B"
    using old new by simp
  have u: "updateTaskStatus this h i B = Inr (True, ?h')" and r: "r < length (objs h)"
    using updateTaskStatus_moved[OF wt split first unique(2) other] by simp_all
  have w': "well_typed this ?h'"
    using wt by (rule well_typed_update)
  have t: "tasks this < length (arrs h)" "tasks this < length (arrs ?h')"
    using wt by (simp_all add: well_typed_def)
  have nr: "r \<notin> set pre \<union> set post"
    using unique by blast
  have inB: "appears_in r (returned (getByStatus this ?h' B))"
    using r split by (simp add: returned_getByStatus[OF w'] appears_in_def)
  have notA: "\<not> appears_in r (returned (getByStatus this ?h' A))"
    using r new by (simp add: returned_getByStatus[OF w'] appears_in_def)
  have noneA: "\<forall>q. appears_in q (returned (getByStatus this ?h' A)) \<longrightarrow> id' (objs ?h' ! q) \<noteq> i"
  proof (intro allI impI)
    fix q
    assume "appears_in q (returned (getByStatus this ?h' A))"
    then have q: "q \<in> set (pre @ r # post)" "status (objs ?h' ! q) = A"
      using split by (auto simp: returned_getByStatus[OF w'] appears_in_def split: if_splits)
    have "q \<noteq> r"
      using q(2) r new by auto
    then have "q \<in> set pre \<union> set post" "objs ?h' ! q = objs h ! q"
      using q(1) by simp_all
    then show "id' (objs ?h' ! q) \<noteq> i"
      using unique(1) by simp
  qed
  have same: "returned (getAll this ?h') = returned (getAll this h)"
    by (simp add: returned_getAll[OF t(1)] returned_getAll[OF t(2)])
  have frame: "objs ?h' ! r = (objs h ! r)\<lparr>status := B\<rparr>"
    "\<forall>q. q \<noteq> r \<longrightarrow> objs ?h' ! q = objs h ! q"
    "length (objs ?h') = length (objs h)" "arrs ?h' = arrs h"
    using r by simp_all
  show ?thesis
    using u inB notA noneA frame same by blast
qed

theorem successful_move_witness:
  "well_typed board_list board \<and>
   arrs board ! tasks board_list = [] @ 0 # [1, 2] \<and>
   id' (objs board ! 0) = ''t1'' \<and> status (objs board ! 0) = ''To Do'' \<and>
   (\<exists>h'. updateTaskStatus board_list board ''t1'' ''In Progress'' = Inr (True, h') \<and>
         appears_in 0 (returned (getByStatus board_list h' ''In Progress'')) \<and>
         \<not> appears_in 0 (returned (getByStatus board_list h' ''To Do'')) \<and>
         objs h' ! 1 = objs board ! 1 \<and> arrs h' = arrs board)"
proof -
  have w: "well_typed board_list board"
    by (rule well_typed_board)
  have a: "arrs board ! tasks board_list = [] @ 0 # [1, 2]"
    by (simp add: board_def board_list_def)
  have b: "\<forall>q \<in> set [] \<union> set [1, 2]. id' (objs board ! q) \<noteq> ''t1''"
    "id' (objs board ! 0) = ''t1''" "status (objs board ! 0) = ''To Do''"
    "''In Progress'' \<noteq> ''To Do''"
    by (simp_all add: board_def board_objs_def)
  obtain h' where "updateTaskStatus board_list board ''t1'' ''In Progress'' = Inr (True, h')"
    "appears_in 0 (returned (getByStatus board_list h' ''In Progress''))"
    "\<not> appears_in 0 (returned (getByStatus board_list h' ''To Do''))"
    "\<forall>q. q \<noteq> 0 \<longrightarrow> objs h' ! q = objs board ! q" "arrs h' = arrs board"
    using successful_move [OF w a b] by blast
  then show ?thesis
    using w a b(2,3) by auto
qed

text \<open>
  Claim C8.  When several tasks of the list share an identifier, \<^verbatim>\<open>updateTaskStatus\<close>, and
  so \<^verbatim>\<open>onDrop\<close>, reads and possibly changes the first of them only: every other Task
  object is as before, and the outcome is the same whatever follows that first task in
  the list.
\<close>

theorem first_match_only:
  assumes t: "tasks this < length (arrs h)"
    and split: "arrs h ! tasks this = pre @ r # post"
    and first: "\<forall>q \<in> set pre. q < length (objs h) \<and> id' (objs h ! q) \<noteq> i"
      "r < length (objs h)" "id' (objs h ! r) = i"
  shows "\<exists>b h'. updateTaskStatus this h i s = Inr (b, h') \<and>
           (b \<longleftrightarrow> status (objs h ! r) \<noteq> s) \<and>
           (\<not> b \<longrightarrow> h' = h) \<and>
           (b \<longrightarrow> objs h' ! r = (objs h ! r)\<lparr>status := s\<rparr>) \<and>
           (\<forall>q. q \<noteq> r \<longrightarrow> objs h' ! q = objs h ! q) \<and>
           length (objs h') = length (objs h) \<and>
           arrs h' = arrs h \<and>
           (i \<noteq> [] \<longrightarrow> onDrop this h (Some (Some i)) s = Inr (b, h')) \<and>
           (\<forall>post'. updateTaskStatus this (h\<lparr>arrs := (arrs h)[tasks this := pre @ r # post']\<rparr>) i s =
                     Inr (b, h'\<lparr>arrs := (arrs h)[tasks this := pre @ r # post']\<rparr>))"
proof -
  let ?h' = "if status (objs h ! r) = s then h
             else h\<lparr>objs := (objs h)[r := (objs h ! r)\<lparr>status := s\<rparr>]\<rparr>"
  let ?b = "status (objs h ! r) \<noteq> s"
  have u: "updateTaskStatus this h i s = Inr (?b, ?h')"
    using updateTaskStatus_first[OF t split first, of s] by simp
  have d: "i \<noteq> [] \<longrightarrow> onDrop this h (Some (Some i)) s = Inr (?b, ?h')"
    using u by (simp add: onDrop_def getDraggedTaskId_def)
  have v: "\<forall>post'. updateTaskStatus this (h\<lparr>arrs := (arrs h)[tasks this := pre @ r # post']\<rparr>) i s =
                     Inr (?b, ?h'\<lparr>arrs := (arrs h)[tasks this := pre @ r # post']\<rparr>)"
  proof
    fix post'
    let ?g = "h\<lparr>arrs := (arrs h)[tasks this := pre @ r # post']\<rparr>"
    have "updateTaskStatus this ?g i s =
       (if status (objs ?g ! r) = s then Inr (False, ?g)
        else Inr (True, ?g\<lparr>objs := (objs ?g)[r := (objs ?g ! r)\<lparr>status := s\<rparr>]\<rparr>))"
      using t first by (intro updateTaskStatus_first[where pre=pre and post=post']) simp_all
    then show "updateTaskStatus this ?g i s = Inr (?b, ?h'\<lparr>arrs := (arrs h)[tasks this := pre @ r # post']\<rparr>)"
      by simp
  qed
  have frame: "\<not> ?b \<longrightarrow> ?h' = h" "?b \<longrightarrow> objs ?h' ! r = (objs h ! r)\<lparr>status := s\<rparr>"
    "\<forall>q. q \<noteq> r \<longrightarrow> objs ?h' ! q = objs h ! q" "length (objs ?h') = length (objs h)"
    "arrs ?h' = arrs h"
    using first(2) by simp_all
  show ?thesis
    using u d v frame by blast
qed

theorem first_match_only_witness:
  "arrs twin_board ! tasks board_list = [0] @ 1 # [2] \<and>
   id' (objs twin_board ! 1) = ''t1'' \<and> id' (objs twin_board ! 2) = ''t1'' \<and>
   (\<exists>h'. updateTaskStatus board_list twin_board ''t1'' ''Done'' = Inr (True, h') \<and>
         status (objs h' ! 1) = ''Done'' \<and> objs h' ! 2 = objs twin_board ! 2 \<and>
         onDrop board_list twin_board (Some (Some ''t1'')) ''Done'' = Inr (True, h'))"
proof -
  have t: "tasks board_list < length (arrs twin_board)"
    by (simp add: twin_board_def board_list_def)
  have a: "arrs twin_board ! tasks board_list = [0] @ 1 # [2]"
    by (simp add: twin_board_def board_list_def)
  have b: "\<forall>q \<in> set [0]. q < length (objs twin_board) \<and> id' (objs twin_board ! q) \<noteq> ''t1''"
    "1 < length (objs twin_board)" "id' (objs twin_board ! 1) = ''t1''"
    by (simp_all add: twin_board_def)
  have c: "status (objs twin_board ! 1) \<noteq> ''Done''" "id' (objs twin_board ! 2) = ''t1''"
    "''t1'' \<noteq> []"
    by (simp_all add: twin_board_def)
  obtain b' h' where "updateTaskStatus board_list twin_board ''t1'' ''Done'' = Inr (b', h')"
    "b' \<longleftrightarrow> status (objs twin_board ! 1) \<noteq> ''Done''"
    "b' \<longrightarrow> objs h' ! 1 = (objs twin_board ! 1)\<lparr>status := ''Done''\<rparr>"
    "\<forall>q. q \<noteq> 1 \<longrightarrow> objs h' ! q = objs twin_board ! q"
    "''t1'' \<noteq> [] \<longrightarrow> onDrop board_list twin_board (Some (Some ''t1'')) ''Done'' = Inr (b', h')"
    using first_match_only [OF t a b, of "''Done''"] by blast
  then show ?thesis
    using a b(3) c by auto
qed

section \<open>Filtering by status\<close>

lemma appears_getAll:
  "well_typed this h \<Longrightarrow>
   appears_in r (returned (getAll this h)) \<longleftrightarrow> r \<in> set (arrs h ! tasks this)"
  by (simp add: returned_getAll well_typed_def appears_in_def)

lemma appears_getByStatus:
  "well_typed this h \<Longrightarrow>
   appears_in r (returned (getByStatus this h s)) \<longleftrightarrow>
     r \<in> set (arrs h ! tasks this) \<and> status (objs h ! r) = s"
  by (simp add: returned_getByStatus appears_in_def)

text \<open>
  Claim C6.  When every task of the list has one of the column titles as status, each
  task of the list is in the result of \<^verbatim>\<open>getByStatus(S)\<close> for exactly one column title
  \<open>S\<close>, and the results for all column titles together hold the same tasks as the
  result of \<^verbatim>\<open>getAll()\<close>.
\<close>

theorem filter_partition:
  assumes wt: "well_typed this h"
    and closed: "\<forall>r \<in> set (arrs h ! tasks this). status (objs h ! r) \<in> set COLUMN_TITLES"
  shows "(\<forall>r. appears_in r (returned (getAll this h)) \<longrightarrow>
              (\<exists>!S. S \<in> set COLUMN_TITLES \<and> appears_in r (returned (getByStatus this h S)))) \<and>
         (\<Union>S \<in> set COLUMN_TITLES. {r. appears_in r (returned (getByStatus this h S))}) =
           {r. appears_in r (returned (getAll this h))}"
proof
  show "\<forall>r. appears_in r (returned (getAll this h)) \<longrightarrow>
              (\<exists>!S. S \<in> set COLUMN_TITLES \<and> appears_in r (returned (getByStatus this h S)))"
    using closed by (auto simp: appears_getAll[OF wt] appears_getByStatus[OF wt])
  show "(\<Union>S \<in> set COLUMN_TITLES. {r. appears_in r (returned (getByStatus this h S))}) =
           {r. appears_in r (returned (getAll this h))}"
    using closed by (auto simp: appears_getAll[OF wt] appears_getByStatus[OF wt])
qed

theorem filter_partition_witness:
  "well_typed board_list board \<and>
   arrs board ! tasks board_list = [0, 1, 2] \<and>
   status (objs board ! 0) \<in> set COLUMN_TITLES \<and>
   status (objs board ! 1) \<in> set COLUMN_TITLES \<and>
   status (objs board ! 2) \<in> set COLUMN_TITLES \<and>
   (\<Union>S \<in> set COLUMN_TITLES. {r. appears_in r (returned (getByStatus board_list board S))}) =
     {r. appears_in r (returned (getAll board_list board))} \<and>
   (\<exists>!S. S \<in> set COLUMN_TITLES \<and> appears_in 2 (returned (getByStatus board_list board S)))"
proof -
  have w: "well_typed board_list board"
    by (rule well_typed_board)
  have a: "arrs board ! tasks board_list = [0, 1, 2]"
    by (simp add: board_def board_list_def)
  have s: "status (objs board ! 0) \<in> set COLUMN_TITLES"
    "status (objs board ! 1) \<in> set COLUMN_TITLES"
    "status (objs board ! 2) \<in> set COLUMN_TITLES"
    by (simp_all add: board_def board_objs_def COLUMN_TITLES_def)
  have c: "\<forall>r \<in> set (arrs board ! tasks board_list). status (objs board ! r) \<in> set COLUMN_TITLES"
    using a s by simp
  have g: "appears_in 2 (returned (getAll board_list board))"
    using a by (simp add: appears_getAll[OF w])
  show ?thesis
    using w a s g filter_partition [OF w c] by blast
qed

section \<open>Adding tasks\<close>

lemma add_typed:
  "tasks this < length (arrs h) \<Longrightarrow>
   add this h newTask = Inr (h\<lparr>arrs := (arrs h)[tasks this := arrs h ! tasks this @ [newTask]]\<rparr>)"
  by (simp add: add_def get_arr_def)

lemma add_all_typed:
  "tasks this < length (arrs h) \<Longrightarrow>
   add_all this h rs = Inr (h\<lparr>arrs := (arrs h)[tasks this := arrs h ! tasks this @ rs]\<rparr>)"
proof (induction rs arbitrary: h)
  case Nil
  then show ?case by simp
next
  case (Cons newTask rest)
  let ?h1 = "h\<lparr>arrs := (arrs h)[tasks this := arrs h ! tasks this @ [newTask]]\<rparr>"
  have "tasks this < length (arrs ?h1)"
    using Cons.prems by simp
  then have "add_all this ?h1 rest =
      Inr (?h1\<lparr>arrs := (arrs ?h1)[tasks this := arrs ?h1 ! tasks this @ rest]\<rparr>)"
    by (rule Cons.IH)
  then show ?case
    using Cons.prems by (simp add: add_typed)
qed

lemma new_TaskList_typed:
  "a0 < length (arrs h) \<Longrightarrow>
   new_TaskList h (Some a0) = Inr (\<lparr>tasks = length (arrs h)\<rparr>, h\<lparr>arrs := arrs h @ [arrs h ! a0]\<rparr>)"
  by (simp add: new_TaskList_def get_arr_def new_arr_def)

lemma new_TaskList_default:
  "new_TaskList h None = Inr (\<lparr>tasks = Suc (length (arrs h))\<rparr>, h\<lparr>arrs := arrs h @ [[], []]\<rparr>)"
  by (simp add: new_TaskList_def get_arr_def new_arr_def nth_append)

text \<open>
  Claim C7.  Tasks added one after the other are listed by \<^verbatim>\<open>getAll\<close> after the tasks
  that were there, in the order of the calls; \<^verbatim>\<open>getByStatus\<close> returns the tasks of the
  status in the order \<^verbatim>\<open>getAll\<close> lists them; so tasks added in a row that share a status
  come out of \<^verbatim>\<open>getByStatus\<close> for that status in the order they were added.
\<close>

theorem insertion_order:
  assumes wt: "well_typed this h"
    and new: "\<forall>r \<in> set rs. r < length (objs h)"
  shows "\<exists>h'. add_all this h rs = Inr h' \<and> objs h' = objs h \<and>
           returned (getAll this h') = Inr (arrs h ! tasks this @ rs) \<and>
           (\<forall>s. returned (getByStatus this h' s) =
                  Inr (filter (\<lambda>r. status (objs h ! r) = s) (arrs h ! tasks this @ rs))) \<and>
           (\<forall>s. (\<forall>r \<in> set rs. status (objs h ! r) = s) \<longrightarrow>
                returned (getByStatus this h' s) =
                  Inr (filter (\<lambda>r. status (objs h ! r) = s) (arrs h ! tasks this) @ rs))"
proof -
  let ?h' = "h\<lparr>arrs := (arrs h)[tasks this := arrs h ! tasks this @ rs]\<rparr>"
  have t: "tasks this < length (arrs h)"
    using wt by (simp add: well_typed_def)
  have a: "add_all this h rs = Inr ?h'"
    using t by (rule add_all_typed)
  have w': "well_typed this ?h'"
    using wt new by (auto simp: well_typed_def)
  have k: "arrs ?h' ! tasks this = arrs h ! tasks this @ rs" "tasks this < length (arrs ?h')"
    "objs ?h' = objs h"
    using t by simp_all
  have g: "returned (getAll this ?h') = Inr (arrs h ! tasks this @ rs)"
    using k by (simp add: returned_getAll)
  have f: "\<forall>s. returned (getByStatus this ?h' s) =
                  Inr (filter (\<lambda>r. status (objs h ! r) = s) (arrs h ! tasks this @ rs))"
    using k by (simp add: returned_getByStatus[OF w'])
  have "\<forall>s. (\<forall>r \<in> set rs. status (objs h ! r) = s) \<longrightarrow>
                returned (getByStatus this ?h' s) =
                  Inr (filter (\<lambda>r. status (objs h ! r) = s) (arrs h ! tasks this) @ rs)"
    using f by (auto simp: filter_id_conv)
  then show ?thesis
    using a k(3) g f by blast
qed

theorem insertion_order_witness:
  "new_TaskList trio None = Inr (\<lparr>tasks = 1\<rparr>, trio\<lparr>arrs := [[], []]\<rparr>) \<and>
   well_typed \<lparr>tasks = 1\<rparr> (trio\<lparr>arrs := [[], []]\<rparr>) \<and>
   (\<exists>h'. add_all \<lparr>tasks = 1\<rparr> (trio\<lparr>arrs := [[], []]\<rparr>) [0, 1, 2] = Inr h' \<and>
         returned (getAll \<lparr>tasks = 1\<rparr> h') = Inr [0, 1, 2] \<and>
         returned (getByStatus \<lparr>tasks = 1\<rparr> h' ''To Do'') = Inr [0, 1, 2])"
proof -
  let ?h = "trio\<lparr>arrs := [[], []]\<rparr>"
  have n: "new_TaskList trio None = Inr (\<lparr>tasks = 1\<rparr>, ?h)"
    by (simp add: new_TaskList_default trio_def)
  have w: "well_typed \<lparr>tasks = 1\<rparr> ?h"
    by (simp add: well_typed_def)
  have b: "\<forall>r \<in> set [0, 1, 2]. r < length (objs ?h)"
    by (simp add: trio_def)
  have s: "\<forall>r \<in> set [0, 1, 2]. status (objs ?h ! r) = ''To Do''"
    by (simp add: trio_def)
  obtain h' where "add_all \<lparr>tasks = 1\<rparr> ?h [0, 1, 2] = Inr h'"
    "returned (getAll \<lparr>tasks = 1\<rparr> h') = Inr (arrs ?h ! tasks \<lparr>tasks = 1\<rparr> @ [0, 1, 2])"
    "\<forall>s. (\<forall>r \<in> set [0, 1, 2]. status (objs ?h ! r) = s) \<longrightarrow>
       returned (getByStatus \<lparr>tasks = 1\<rparr> h' s) =
         Inr (filter (\<lambda>r. status (objs ?h ! r) = s) (arrs ?h ! tasks \<lparr>tasks = 1\<rparr>) @ [0, 1, 2])"
    using insertion_order [OF w b] by blast
  then have "add_all \<lparr>tasks = 1\<rparr> ?h [0, 1, 2] = Inr h' \<and>
         returned (getAll \<lparr>tasks = 1\<rparr> h') = Inr [0, 1, 2] \<and>
         returned (getByStatus \<lparr>tasks = 1\<rparr> h' ''To Do'') = Inr [0, 1, 2]"
    using s by simp
  then show ?thesis
    using n w by blast
qed

section \<open>No operation raises\<close>

lemma well_typed_new_arr:
  "well_typed this h \<Longrightarrow> well_typed this (h\<lparr>arrs := arrs h @ [ys]\<rparr>)"
  by (simp add: well_typed_def nth_append)

text \<open>
  Claim C9.  On a list typed as the class declares it, no method raises: \<^verbatim>\<open>getAll\<close>,
  \<^verbatim>\<open>getByStatus\<close>, \<^verbatim>\<open>add\<close>, \<^verbatim>\<open>updateTaskStatus\<close> and \<^verbatim>\<open>onDrop\<close> return a value for
  every argument, and the list they leave behind is typed again, so this holds along
  every run of calls.  The failures are the \<^verbatim>\<open>false\<close> results described by the
  other claims.
\<close>

theorem operations_never_raise:
  assumes wt: "well_typed this h"
  shows "(\<exists>a h'. getAll this h = Inr (a, h') \<and> well_typed this h') \<and>
         (\<forall>s. \<exists>a h'. getByStatus this h s = Inr (a, h') \<and> well_typed this h') \<and>
         (\<forall>newTask. \<exists>h'. add this h newTask = Inr h' \<and>
            (newTask < length (objs h) \<longrightarrow> well_typed this h')) \<and>
         (\<forall>taskId s. \<exists>b h'. updateTaskStatus this h taskId s = Inr (b, h') \<and> well_typed this h') \<and>
         (\<forall>dataTransfer s. \<exists>b h'. onDrop this h dataTransfer s = Inr (b, h') \<and> well_typed this h')"
proof -
  have t: "tasks this < length (arrs h)"
    using wt by (simp add: well_typed_def)
  have g: "\<exists>a h'. getAll this h = Inr (a, h') \<and> well_typed this h'"
    using wt by (simp add: getAll_typed[OF t] well_typed_new_arr)
  have f: "\<forall>s. \<exists>a h'. getByStatus this h s = Inr (a, h') \<and> well_typed this h'"
    using wt by (simp add: getByStatus_typed[OF wt] well_typed_new_arr)
  have a: "\<forall>newTask. \<exists>h'. add this h newTask = Inr h' \<and>
            (newTask < length (objs h) \<longrightarrow> well_typed this h')"
    using wt by (auto simp: add_typed[OF t] well_typed_def)
  have u: "\<exists>b h'. updateTaskStatus this h taskId s = Inr (b, h') \<and> well_typed this h'"
    for taskId s
  proof (cases "List.find (\<lambda>r. id' (objs h ! r) = taskId) (arrs h ! tasks this)")
    case None
    then show ?thesis
      using wt by (auto simp: updateTaskStatus_def get_arr_def well_typed_def array_find_typed)
  next
    case (Some r)
    then have "r < length (objs h)"
      using wt find_Some_typed[OF Some] by (simp add: well_typed_def)
    then show ?thesis
      using wt Some well_typed_update[OF wt]
      by (auto simp: updateTaskStatus_def get_arr_def get_obj_def well_typed_def array_find_typed)
  qed
  have d: "\<exists>b h'. onDrop this h dataTransfer s = Inr (b, h') \<and> well_typed this h'"
    for dataTransfer s
    using wt u by (auto simp: onDrop_def split: option.splits)
  show ?thesis
    using g f a u d by blast
qed

theorem operations_never_raise_witness:
  "well_typed board_list board \<and>
   (\<exists>a h'. getAll board_list board = Inr (a, h')) \<and>
   (\<exists>a h'. getByStatus board_list board ''Archived'' = Inr (a, h')) \<and>
   (\<exists>h'. add board_list board 1 = Inr h') \<and>
   (\<exists>b h'. updateTaskStatus board_list board ''t9'' ''Done'' = Inr (b, h')) \<and>
   (\<exists>b h'. onDrop board_list board None ''Done'' = Inr (b, h'))"
proof -
  have w: "well_typed board_list board"
    by (rule well_typed_board)
  show ?thesis
    using w operations_never_raise [OF w] by blast
qed

end
